theory Spec2Isabelle
  imports Main
begin

section \<open>Extraction of message descriptors (src/index.js)\<close>

text \<open>
  The plugin visits a syntax tree, builds a message descriptor from every marker usage
  and keeps the descriptors of one compilation unit in a JavaScript \<open>Map\<close>. The
  embedding follows the source function by function. A thrown error is a value: a
  function that can throw after touching the state returns the error (or \<open>None\<close>)
  together with the state it leaves behind.

  JavaScript values: the data model gives a descriptor's fields the type "string or
  absent", so a value is a \<open>string option\<close>, \<open>None\<close> being \<open>undefined\<close>.
  Constants of other JavaScript types are not represented. Output on the process console
  (\<open>console.warn\<close>) is not part of the state and is left out.
\<close>

subsection \<open>Values and descriptors\<close>

definition truthy :: "string option \<Rightarrow> bool" where
  "truthy v = (case v of None \<Rightarrow> False | Some s \<Rightarrow> s \<noteq> [])"

record descriptor =
  id_prop :: "string option"
  description :: "string option"
  defaultMessage :: "string option"

definition empty_hash :: descriptor where
  "empty_hash = \<lparr>id_prop = None, description = None, defaultMessage = None\<rparr>"

definition COMPONENT_NAMES :: "string list" where
  "COMPONENT_NAMES = [''FormattedMessage'', ''FormattedHTMLMessage'', ''Msg'', ''HtmlMsg'']"

definition FUNCTION_NAMES :: "string list" where
  "FUNCTION_NAMES = [''defineMessages'', ''msgs'']"

definition DESCRIPTOR_PROPS :: "string list" where
  "DESCRIPTOR_PROPS = [''id'', ''description'', ''defaultMessage'']"

subsection \<open>The syntax tree, as far as the plugin inspects it\<close>

text \<open>
  \<open>evaluation\<close> is the host's answer to \<open>path.evaluate()\<close>: the pair of the
  \<open>confident\<close> flag and the value. An identifier carries the import it is bound to,
  if any, as (module source, imported name). \<open>NoNode\<close> is a path without a node: an
  absent argument, the value of an attribute written without one.
\<close>

datatype evaluation = Confident string | NotConfident

datatype node =
    Identifier string "(string \<times> string) option" evaluation
  | JSXIdentifier string "(string \<times> string) option"
  | StringLiteral string
  | TemplateLiteral evaluation
  | Expression evaluation
  | JSXExpressionContainer node
  | ObjectProperty node node
  | SpreadElement node
  | ObjectExpression "node list"
  | JSXAttribute node node
  | JSXSpreadAttribute node
  | JSXOpeningElement node "node list"
  | CallExpression node "node list"
  | NoNode

fun isIdentifier :: "node \<Rightarrow> bool" where
  "isIdentifier (Identifier n b e) = True"
| "isIdentifier other = False"

fun isJSXIdentifier :: "node \<Rightarrow> bool" where
  "isJSXIdentifier (JSXIdentifier n b) = True"
| "isJSXIdentifier other = False"

fun isJSXExpressionContainer :: "node \<Rightarrow> bool" where
  "isJSXExpressionContainer (JSXExpressionContainer e) = True"
| "isJSXExpressionContainer other = False"

fun isLiteral :: "node \<Rightarrow> bool" where
  "isLiteral (StringLiteral s) = True"
| "isLiteral (TemplateLiteral e) = True"
| "isLiteral other = False"

fun isObjectExpression :: "node \<Rightarrow> bool" where
  "isObjectExpression (ObjectExpression ps) = True"
| "isObjectExpression other = False"

fun isJSXAttribute :: "node \<Rightarrow> bool" where
  "isJSXAttribute (JSXAttribute n v) = True"
| "isJSXAttribute other = False"

fun node_name :: "node \<Rightarrow> string" where
  "node_name (Identifier n b e) = n"
| "node_name (JSXIdentifier n b) = n"
| "node_name other = []"

fun binding :: "node \<Rightarrow> (string \<times> string) option" where
  "binding (Identifier n b e) = b"
| "binding (JSXIdentifier n b) = b"
| "binding other = None"

text \<open>The children \<open>path.get\<close> reaches; a child the node does not have is \<open>NoNode\<close>.\<close>

fun get_expression :: "node \<Rightarrow> node" where
  "get_expression (JSXExpressionContainer e) = e"
| "get_expression other = NoNode"

fun get_name :: "node \<Rightarrow> node" where
  "get_name (JSXAttribute n v) = n"
| "get_name (JSXOpeningElement n as) = n"
| "get_name other = NoNode"

fun get_key :: "node \<Rightarrow> node" where
  "get_key (ObjectProperty k v) = k"
| "get_key other = NoNode"

fun get_value :: "node \<Rightarrow> node" where
  "get_value (JSXAttribute n v) = v"
| "get_value (ObjectProperty k v) = v"
| "get_value other = NoNode"

fun get_attributes :: "node \<Rightarrow> node list" where
  "get_attributes (JSXOpeningElement n as) = as"
| "get_attributes other = []"

fun get_properties :: "node \<Rightarrow> node list" where
  "get_properties (ObjectExpression ps) = ps"
| "get_properties other = []"

fun get_callee :: "node \<Rightarrow> node" where
  "get_callee (CallExpression c as) = c"
| "get_callee other = NoNode"

fun get_arguments :: "node \<Rightarrow> node list" where
  "get_arguments (CallExpression c as) = as"
| "get_arguments other = []"

text \<open>
  Modelled from the spec: the host's node evaluation ("returns a confidence flag plus a
  resolved value for constant-foldable expressions") and its import-origin query ("does
  this identifier reference a given name imported from a given module source"). Both
  belong to the tree traversal library, which the repository does not contain; a leaf
  carries the host's answer.
\<close>

fun evaluate :: "node \<Rightarrow> evaluation" where
  "evaluate (Identifier n b e) = e"
| "evaluate (StringLiteral s) = Confident s"
| "evaluate (TemplateLiteral e) = e"
| "evaluate (Expression e) = e"
| "evaluate other = NotConfident"

definition path_referencesImport :: "node \<Rightarrow> string \<Rightarrow> string \<Rightarrow> bool" where
  "path_referencesImport path src name = (binding path = Some (src, name))"

subsection \<open>Options and the plugin's state\<close>

text \<open>
  \<open>state\<close> holds what the visitor reads and writes: the options, the registry
  \<open>reactIntl.messages\<close>, the file's metadata entry, its log and its names, and the
  files written so far. The registry is a JavaScript \<open>Map\<close>: an association list in
  insertion order, where \<open>set\<close> on a key already there replaces the value in place
  and \<open>set\<close> on a new key appends.
\<close>

record options =
  moduleSourceNames :: "string list option"
  componentNames :: "string list option"
  functionNames :: "string list option"
  enforceDescriptions :: bool
  messagesDir :: "string option"

datatype warning = FormattedPluralNotExtracted node

datatype fs_call = MkdirpSync string | WriteFileSync string string

record state =
  opts :: options
  messages :: "(string option \<times> descriptor) list"
  metadata :: "descriptor list option"
  file_log :: "warning list"
  basename :: string
  filename :: string
  fs_calls :: "fs_call list"

fun Map_has :: "('k \<times> 'v) list \<Rightarrow> 'k \<Rightarrow> bool" where
  "Map_has [] k = False"
| "Map_has ((k', v) # m) k = (if k' = k then True else Map_has m k)"

fun Map_get :: "('k \<times> 'v) list \<Rightarrow> 'k \<Rightarrow> 'v option" where
  "Map_get [] k = None"
| "Map_get ((k', v) # m) k = (if k' = k then Some v else Map_get m k)"

fun Map_set :: "('k \<times> 'v) list \<Rightarrow> 'k \<Rightarrow> 'v \<Rightarrow> ('k \<times> 'v) list" where
  "Map_set [] k v = [(k, v)]"
| "Map_set ((k', v') # m) k v = (if k' = k then (k, v) # m else (k', v') # Map_set m k v)"

definition Map_values :: "('k \<times> 'v) list \<Rightarrow> 'v list" where
  "Map_values m = map snd m"

definition getModuleSourceNames :: "options \<Rightarrow> string list" where
  "getModuleSourceNames os = (case moduleSourceNames os of Some ns \<Rightarrow> ns | None \<Rightarrow> [''react-intl''])"

definition getComponentNames :: "options \<Rightarrow> string list" where
  "getComponentNames os = (case componentNames os of Some ns \<Rightarrow> ns | None \<Rightarrow> COMPONENT_NAMES)"

definition getFunctionNames :: "options \<Rightarrow> string list" where
  "getFunctionNames os = (case functionNames os of Some ns \<Rightarrow> ns | None \<Rightarrow> FUNCTION_NAMES)"

subsection \<open>Errors\<close>

text \<open>
  One constructor for each error the source raises. An error built by
  \<open>buildCodeFrameError\<close> with the message alone carries the path it is built on, the
  duplicate error also the id it names.

  The host's \<open>buildCodeFrameError(msg, Error = SyntaxError)\<close> takes as its second
  argument the constructor of the error to build and calls \<open>new Error(msg)\<close>. At
  lines 117-121 the source passes the caught \<open>parseError\<close> there, an error object and
  no constructor, so that call builds no located error: it throws the
  \<open>TypeError\<close> "Error is not a constructor", which has neither the location nor the
  parse failure. \<open>ErrorIsNotAConstructor\<close> is that error.
\<close>

datatype error =
    MessageFailedToParseJSXEscape node
  | ErrorIsNotAConstructor
  | RequireIdAndDefaultMessage node
  | DuplicateMessageId node "string option"
  | MustHaveDescription node
  | MustBeObjectExpression node string
  | MissingDefaultMessage node

subsection \<open>Building a descriptor\<close>

text \<open>\<open>INVALID_VALUE\<close> is \<open>None\<close> in the results of the next two functions.\<close>

definition getMessageDescriptorKey :: "node \<Rightarrow> string option" where
  "getMessageDescriptorKey path =
     (if isIdentifier path \<or> isJSXIdentifier path then Some (node_name path)
      else case evaluate path of Confident v \<Rightarrow> Some v | NotConfident \<Rightarrow> None)"

definition getMessageDescriptorValue :: "node \<Rightarrow> string option" where
  "getMessageDescriptorValue path =
     (let path' = (if isJSXExpressionContainer path then get_expression path else path)
      in case evaluate path' of Confident v \<Rightarrow> Some v | NotConfident \<Rightarrow> None)"

text \<open>
  \<open>indexOf\<close> is JavaScript's \<open>String.prototype.indexOf\<close>: the position of the
  first occurrence, or \<open>-1\<close>. The source searches for the string written
  \<open>'\\\\'\<close>, which is two backslash characters.
\<close>

fun starts_with :: "string \<Rightarrow> string \<Rightarrow> bool" where
  "starts_with s [] = True"
| "starts_with [] (p # ps) = False"
| "starts_with (c # cs) (p # ps) = (c = p \<and> starts_with cs ps)"

fun indexOf_from :: "nat \<Rightarrow> string \<Rightarrow> string \<Rightarrow> int" where
  "indexOf_from i [] pat = (if pat = [] then int i else -1)"
| "indexOf_from i (c # cs) pat =
     (if starts_with (c # cs) pat then int i else indexOf_from (Suc i) cs pat)"

definition indexOf :: "string \<Rightarrow> string \<Rightarrow> int" where
  "indexOf s pat = indexOf_from 0 s pat"

definition two_backslashes :: string where
  "two_backslashes = [CHR 0x5C, CHR 0x5C]"

definition hash_set :: "descriptor \<Rightarrow> string \<Rightarrow> string \<Rightarrow> descriptor" where
  "hash_set hash key v =
     (if key = ''id'' then hash\<lparr>id_prop := Some v\<rparr>
      else if key = ''description'' then hash\<lparr>description := Some v\<rparr>
      else if key = ''defaultMessage'' then hash\<lparr>defaultMessage := Some v\<rparr>
      else hash)"

text \<open>
  The callback of \<open>propPaths.reduce\<close>. \<open>printICUMessage\<close> is the message-syntax
  validator of \<open>./print-icu-message\<close>, a parameter here: \<open>Inr\<close> its normalized
  output, \<open>Inl\<close> the parse error it throws. In the \<open>catch\<close> block the first
  \<open>throw\<close> builds its error from the message alone; the second hands
  \<open>parseError\<close> to the host as the error constructor (see the errors above).
\<close>

definition reduce_step ::
  "(string \<Rightarrow> string + string) \<Rightarrow> bool \<Rightarrow> descriptor \<Rightarrow> node \<times> node \<Rightarrow> error + descriptor" where
  "reduce_step printICUMessage isJSXSource hash kv =
     (case kv of (keyPath, valuePath) \<Rightarrow>
        (case getMessageDescriptorKey keyPath of
           None \<Rightarrow> Inr hash
         | Some key \<Rightarrow>
             if key \<notin> set DESCRIPTOR_PROPS then Inr hash
             else (case getMessageDescriptorValue valuePath of
                 None \<Rightarrow> Inr hash
               | Some v \<Rightarrow>
                   if key = ''defaultMessage'' then
                     (case printICUMessage v of
                        Inr printed \<Rightarrow> Inr (hash_set hash key printed)
                      | Inl parseError \<Rightarrow>
                          if isJSXSource \<and> isLiteral valuePath \<and> indexOf v two_backslashes \<ge> 0
                          then Inl (MessageFailedToParseJSXEscape valuePath)
                          else Inl ErrorIsNotAConstructor)
                   else Inr (hash_set hash key v))))"

fun reduce_from ::
  "(string \<Rightarrow> string + string) \<Rightarrow> bool \<Rightarrow> descriptor \<Rightarrow> (node \<times> node) list \<Rightarrow> error + descriptor" where
  "reduce_from printICUMessage isJSXSource hash [] = Inr hash"
| "reduce_from printICUMessage isJSXSource hash (kv # kvs) =
     (case reduce_step printICUMessage isJSXSource hash kv of
        Inl e \<Rightarrow> Inl e
      | Inr hash' \<Rightarrow> reduce_from printICUMessage isJSXSource hash' kvs)"

definition createMessageDescriptor ::
  "(string \<Rightarrow> string + string) \<Rightarrow> (node \<times> node) list \<Rightarrow> bool \<Rightarrow> error + descriptor" where
  "createMessageDescriptor printICUMessage propPaths isJSXSource =
     reduce_from printICUMessage isJSXSource empty_hash propPaths"

subsection \<open>The registry\<close>

definition storeMessage :: "descriptor \<Rightarrow> node \<Rightarrow> state \<Rightarrow> error option \<times> state" where
  "storeMessage d path st =
     (if \<not> (truthy (id_prop d) \<and> truthy (defaultMessage d))
      then (Some (RequireIdAndDefaultMessage path), st)
      else if Map_has (messages st) (id_prop d) \<and>
              (case Map_get (messages st) (id_prop d) of
                 None \<Rightarrow> False
               | Some existing \<Rightarrow>
                   description d \<noteq> description existing \<or>
                   defaultMessage d \<noteq> defaultMessage existing)
      then (Some (DuplicateMessageId path (id_prop d)), st)
      else if enforceDescriptions (opts st) \<and> \<not> truthy (description d)
      then (Some (MustHaveDescription path), st)
      else (None, st\<lparr>messages := Map_set (messages st) (id_prop d)
              \<lparr>id_prop = id_prop d, description = description d,
               defaultMessage = defaultMessage d\<rparr>\<rparr>))"

subsection \<open>Matching markers\<close>

definition referencesImport :: "node \<Rightarrow> string list \<Rightarrow> string list \<Rightarrow> bool" where
  "referencesImport path mods importedNames =
     (if \<not> (isIdentifier path \<or> isJSXIdentifier path) then False
      else list_ex (\<lambda>name. list_ex (\<lambda>src. path_referencesImport path src name) mods)
             importedNames)"

subsection \<open>The visitor\<close>

definition Program_enter :: "state \<Rightarrow> state" where
  "Program_enter st = st\<lparr>messages := []\<rparr>"

text \<open>
  \<open>host\<close> gathers what \<open>Program.exit\<close> takes from the runtime: the \<open>path\<close>
  module, the working directory and \<open>JSON.stringify\<close>. Failures of the file system
  are outside the model: a call is recorded in \<open>fs_calls\<close>.
\<close>

record host =
  p_join :: "string list \<Rightarrow> string"
  p_sep :: string
  p_relative :: "string \<Rightarrow> string \<Rightarrow> string"
  p_dirname :: "string \<Rightarrow> string"
  process_cwd :: string
  JSON_stringify :: "descriptor list \<Rightarrow> string"

definition Program_exit :: "host \<Rightarrow> state \<Rightarrow> state" where
  "Program_exit h st =
     (let descriptors = Map_values (messages st);
          st1 = st\<lparr>metadata := Some descriptors\<rparr>
      in case messagesDir (opts st) of
           None \<Rightarrow> st1
         | Some dir \<Rightarrow>
             if truthy (Some dir) \<and> 0 < length descriptors then
               (let relativePath = p_join h [p_sep h, p_relative h (process_cwd h) (filename st)];
                    messagesFilename =
                      p_join h [dir, p_dirname h relativePath, basename st @ ''.json''];
                    messagesFile = JSON_stringify h descriptors
                in st1\<lparr>fs_calls := fs_calls st1 @
                     [MkdirpSync (p_dirname h messagesFilename),
                      WriteFileSync messagesFilename messagesFile]\<rparr>)
             else st1)"

definition visit_JSXOpeningElement ::
  "(string \<Rightarrow> string + string) \<Rightarrow> node \<Rightarrow> state \<Rightarrow> error option \<times> state" where
  "visit_JSXOpeningElement printICUMessage path st =
     (let moduleSourceNames = getModuleSourceNames (opts st);
          name = get_name path
      in if referencesImport name moduleSourceNames [''FormattedPlural'']
         then (None, st\<lparr>file_log := file_log st @ [FormattedPluralNotExtracted path]\<rparr>)
         else if referencesImport name moduleSourceNames COMPONENT_NAMES then
           (let attributes = filter isJSXAttribute (get_attributes path)
            in case createMessageDescriptor printICUMessage
                      (map (\<lambda>attr. (get_name attr, get_value attr)) attributes) True of
                 Inl e \<Rightarrow> (Some e, st)
               | Inr descriptor \<Rightarrow>
                   if truthy (defaultMessage descriptor)
                   then storeMessage descriptor path st
                   else (None, st))
         else (None, st))"

definition assertObjectExpression :: "node \<Rightarrow> node \<Rightarrow> node \<Rightarrow> error option" where
  "assertObjectExpression path callee n =
     (if \<not> isObjectExpression n
      then Some (MustBeObjectExpression path (node_name callee)) else None)"

definition processMessageObject ::
  "(string \<Rightarrow> string + string) \<Rightarrow> node \<Rightarrow> node \<Rightarrow> node \<Rightarrow> state \<Rightarrow> error option \<times> state" where
  "processMessageObject printICUMessage path callee messageObj st =
     (case assertObjectExpression path callee messageObj of
        Some e \<Rightarrow> (Some e, st)
      | None \<Rightarrow>
          (case createMessageDescriptor printICUMessage
                  (map (\<lambda>prop. (get_key prop, get_value prop)) (get_properties messageObj))
                  False of
             Inl e \<Rightarrow> (Some e, st)
           | Inr descriptor \<Rightarrow>
               if \<not> truthy (defaultMessage descriptor)
               then (Some (MissingDefaultMessage path), st)
               else storeMessage descriptor path st))"

fun forEach_processMessageObject ::
  "(string \<Rightarrow> string + string) \<Rightarrow> node \<Rightarrow> node \<Rightarrow> node list \<Rightarrow> state \<Rightarrow> error option \<times> state" where
  "forEach_processMessageObject printICUMessage path callee [] st = (None, st)"
| "forEach_processMessageObject printICUMessage path callee (obj # objs) st =
     (case processMessageObject printICUMessage path callee obj st of
        (Some e, st') \<Rightarrow> (Some e, st')
      | (None, st') \<Rightarrow> forEach_processMessageObject printICUMessage path callee objs st')"

definition visit_CallExpression ::
  "(string \<Rightarrow> string + string) \<Rightarrow> node \<Rightarrow> state \<Rightarrow> error option \<times> state" where
  "visit_CallExpression printICUMessage path st =
     (let moduleSourceNames = getModuleSourceNames (opts st);
          callee = get_callee path
      in if referencesImport callee moduleSourceNames FUNCTION_NAMES then
           (let messagesObj = (case get_arguments path of [] \<Rightarrow> NoNode | a # as \<Rightarrow> a)
            in case assertObjectExpression path callee messagesObj of
                 Some e \<Rightarrow> (Some e, st)
               | None \<Rightarrow>
                   forEach_processMessageObject printICUMessage path callee
                     (map get_value (get_properties messagesObj)) st)
         else (None, st))"

text \<open>
  The calls of \<open>storeMessage\<close> that the traversal of one compilation unit makes, in
  order: a thrown error ends the unit.
\<close>

fun storeMessages :: "(descriptor \<times> node) list \<Rightarrow> state \<Rightarrow> error option \<times> state" where
  "storeMessages [] st = (None, st)"
| "storeMessages ((d, path) # calls) st =
     (case storeMessage d path st of
        (Some e, st') \<Rightarrow> (Some e, st')
      | (None, st') \<Rightarrow> storeMessages calls st')"

subsection \<open>Data for the examples\<close>

text \<open>
  No option given; the state \<open>Program.enter\<close> leaves for a file; the descriptor of the
  usage \<open><FormattedMessage id="greeting" defaultMessage="Hello {name}" />\<close>; options
  that override both name lists.
\<close>

definition no_options :: options where
  "no_options = \<lparr>moduleSourceNames = None, componentNames = None, functionNames = None,
     enforceDescriptions = False, messagesDir = None\<rparr>"

definition initial_state :: "options \<Rightarrow> string \<Rightarrow> string \<Rightarrow> state" where
  "initial_state os base file =
     Program_enter \<lparr>opts = os, messages = [], metadata = None, file_log = [],
       basename = base, filename = file, fs_calls = []\<rparr>"

definition greeting :: descriptor where
  "greeting = \<lparr>id_prop = Some ''greeting'', description = None,
     defaultMessage = Some ''Hello {name}''\<rparr>"

definition custom_names :: options where
  "custom_names = no_options\<lparr>componentNames := Some [''Translate''],
                              functionNames := Some [''translate'']\<rparr>"

text \<open>
  A \<open><FormattedMessage ... />\<close> element whose tag is imported from \<open>react-intl\<close>,
  an attribute \<open>name="v"\<close>, and the call \<open>name({hello: {id: "greeting",
  defaultMessage: "Hello {name}"}})\<close> of a function imported from \<open>react-intl\<close>.
\<close>

definition formattedMessage :: "node list \<Rightarrow> node" where
  "formattedMessage attributes =
     JSXOpeningElement
       (JSXIdentifier ''FormattedMessage'' (Some (''react-intl'', ''FormattedMessage'')))
       attributes"

definition attribute :: "string \<Rightarrow> string \<Rightarrow> node" where
  "attribute name v = JSXAttribute (JSXIdentifier name None) (StringLiteral v)"

definition messagesCall :: "string \<Rightarrow> node" where
  "messagesCall name =
     CallExpression (Identifier name (Some (''react-intl'', name)) NotConfident)
       [ObjectExpression
          [ObjectProperty (Identifier ''hello'' None NotConfident)
             (ObjectExpression
                [ObjectProperty (Identifier ''id'' None NotConfident) (StringLiteral ''greeting''),
                 ObjectProperty (Identifier ''defaultMessage'' None NotConfident)
                   (StringLiteral ''Hello {name}'')])]]"

text \<open>
  Stand-ins for the collaborators, for the examples only: a validator that accepts a text
  when it has as many opening as closing braces and returns it as it is, and a runtime
  whose \<open>join\<close> concatenates and whose \<open>dirname\<close> cuts after the last slash.
\<close>

definition sample_printICUMessage :: "string \<Rightarrow> string + string" where
  "sample_printICUMessage s =
     (if count_list s (CHR ''{'') = count_list s (CHR ''}'') then Inr s
      else Inl ''unbalanced braces'')"

definition plain_host :: host where
  "plain_host = \<lparr>
     p_join = concat,
     p_sep = ''/'',
     p_relative = (\<lambda>from to. to),
     p_dirname = (\<lambda>path. rev (dropWhile (\<lambda>c. c \<noteq> CHR ''/'') (rev path))),
     process_cwd = ''/'',
     JSON_stringify =
       (\<lambda>ds. concat (map (\<lambda>d. case id_prop d of None \<Rightarrow> [] | Some i \<Rightarrow> i) ds))\<rparr>"

subsection \<open>Notions of the specification\<close>

text \<open>
  The order of first registration: of the descriptors registered, in order, each one
  whose id was not registered before it.
\<close>

fun first_registered :: "descriptor list \<Rightarrow> descriptor list" where
  "first_registered [] = []"
| "first_registered (d # ds) =
     d # first_registered (filter (\<lambda>d'. id_prop d' \<noteq> id_prop d) ds)"

text \<open>
  A \<open>defaultMessage\<close> property is resolved from the pairs of a usage: some key
  resolves to that name and its value evaluates.
\<close>

definition resolvesDefaultMessage :: "(node \<times> node) list \<Rightarrow> bool" where
  "resolvesDefaultMessage propPaths =
     list_ex (\<lambda>kv. getMessageDescriptorKey (fst kv) = Some ''defaultMessage'' \<and>
                   getMessageDescriptorValue (snd kv) \<noteq> None) propPaths"

section \<open>Properties of the registry\<close>

lemmas example_defs =
  initial_state_def Program_enter_def no_options_def greeting_def custom_names_def
  formattedMessage_def attribute_def messagesCall_def sample_printICUMessage_def

lemmas visitor_defs =
  visit_JSXOpeningElement_def visit_CallExpression_def processMessageObject_def
  assertObjectExpression_def getModuleSourceNames_def referencesImport_def
  path_referencesImport_def COMPONENT_NAMES_def FUNCTION_NAMES_def
  createMessageDescriptor_def reduce_step_def getMessageDescriptorKey_def
  getMessageDescriptorValue_def DESCRIPTOR_PROPS_def hash_set_def empty_hash_def
  storeMessage_def truthy_def Let_def

lemma descriptor_eta:
  "\<lparr>id_prop = id_prop d, description = description d, defaultMessage = defaultMessage d\<rparr>
   = (d::descriptor)"
  by (cases d) simp

lemma Map_get_set_same: "Map_get (Map_set m k v) k = Some v"
  by (induction m) auto

lemma Map_has_get: "Map_has m k \<longleftrightarrow> Map_get m k \<noteq> None"
  by (induction m) (auto split: if_splits)

lemma Map_has_keys: "Map_has m k \<longleftrightarrow> k \<in> set (map fst m)"
  by (induction m) (auto split: if_splits)

lemma Map_set_unchanged: "Map_get m k = Some v \<Longrightarrow> Map_set m k v = m"
  by (induction m) (auto split: if_splits)

lemma Map_set_keys:
  "map fst (Map_set m k v) = (if Map_has m k then map fst m else map fst m @ [k])"
  by (induction m) (auto split: if_splits)

lemma Map_one_entry:
  "distinct (map fst m) \<Longrightarrow> Map_get m k = Some v \<Longrightarrow>
   length (filter (\<lambda>e. fst e = k) m) = 1"
proof (induction m)
  case Nil
  then show ?case by simp
next
  case (Cons e m)
  show ?case
  proof (cases "fst e = k")
    case True
    then have "k \<notin> fst ` set m" using Cons.prems(1) by auto
    then have "filter (\<lambda>e. fst e = k) m = []" by (auto simp: filter_empty_conv)
    with True show ?thesis by simp
  next
    case False
    then show ?thesis using Cons by (cases e) auto
  qed
qed

text \<open>What a call of \<open>storeMessage\<close> that returns has checked and done.\<close>

lemma storeMessage_success:
  assumes "storeMessage d path st = (None, st1)"
  shows "st1 = st\<lparr>messages := Map_set (messages st) (id_prop d) d\<rparr>"
    and "truthy (id_prop d)" and "truthy (defaultMessage d)"
    and "enforceDescriptions (opts st) \<Longrightarrow> truthy (description d)"
  using assms by (auto simp: storeMessage_def descriptor_eta split: if_splits)

lemma storeMessage_keeps_keys_distinct:
  assumes "distinct (map fst (messages st))" and "storeMessage d path st = (None, st1)"
  shows "distinct (map fst (messages st1))"
  using assms(1) storeMessage_success(1)[OF assms(2)]
  by (auto simp: Map_set_keys Map_has_keys)

text \<open>
  C4. A descriptor whose \<open>id\<close> or \<open>defaultMessage\<close> is absent is refused with the
  missing-required-field error, whatever the options \<open>os\<close> are (the setting
  \<open>enforceDescriptions\<close> among them), and the state, the registry in it, is as before.
\<close>

theorem storeMessage_missing_field:
  "id_prop d = None \<or> defaultMessage d = None \<Longrightarrow>
   storeMessage d path (st\<lparr>opts := os\<rparr>) =
     (Some (RequireIdAndDefaultMessage path), st\<lparr>opts := os\<rparr>)"
  by (auto simp: storeMessage_def truthy_def)

theorem storeMessage_missing_field_witness:
  "storeMessage (greeting\<lparr>id_prop := None\<rparr>) NoNode
     ((initial_state no_options ''App'' ''src/App.js'')
        \<lparr>opts := no_options\<lparr>enforceDescriptions := True\<rparr>\<rparr>) =
   (Some (RequireIdAndDefaultMessage NoNode),
    (initial_state no_options ''App'' ''src/App.js'')
        \<lparr>opts := no_options\<lparr>enforceDescriptions := True\<rparr>\<rparr>)"
  using storeMessage_missing_field [where d = "greeting\<lparr>id_prop := None\<rparr>"
      and path = NoNode and st = "initial_state no_options ''App'' ''src/App.js''"
      and os = "no_options\<lparr>enforceDescriptions := True\<rparr>"]
  by simp

text \<open>
  C10. The presence check is on truthiness: an \<open>id\<close> or a \<open>defaultMessage\<close> that
  is the empty string is refused with the same missing-required-field error as an absent
  one.
\<close>

theorem storeMessage_empty_string_field:
  "id_prop d = Some [] \<or> defaultMessage d = Some [] \<Longrightarrow>
   storeMessage d path st = (Some (RequireIdAndDefaultMessage path), st)"
  by (auto simp: storeMessage_def truthy_def)

theorem storeMessage_empty_string_field_witness:
  "storeMessage (greeting\<lparr>defaultMessage := Some []\<rparr>) NoNode
     (initial_state no_options ''App'' ''src/App.js'') =
   (Some (RequireIdAndDefaultMessage NoNode), initial_state no_options ''App'' ''src/App.js'')"
  using storeMessage_empty_string_field [where d = "greeting\<lparr>defaultMessage := Some []\<rparr>"
      and path = NoNode and st = "initial_state no_options ''App'' ''src/App.js''"]
  by simp

lemma storeMessage_accepts:
  assumes "truthy (id_prop d)" and "truthy (defaultMessage d)"
    and "enforceDescriptions (opts st) \<longrightarrow> truthy (description d)"
    and "case Map_get (messages st) (id_prop d) of None \<Rightarrow> True
         | Some existing \<Rightarrow> description existing = description d \<and>
             defaultMessage existing = defaultMessage d"
  shows "storeMessage d path st =
           (None, st\<lparr>messages := Map_set (messages st) (id_prop d) d\<rparr>)"
  using assms
  by (auto simp: storeMessage_def descriptor_eta Map_has_get split: option.splits)

lemma storeMessage_again:
  assumes "distinct (map fst (messages st))"
    and "storeMessage d path st = (None, st1)"
  shows "storeMessage d path' st1 = (None, st1)
         \<and> Map_get (messages st1) (id_prop d) = Some d
         \<and> length (filter (\<lambda>e. fst e = id_prop d) (messages st1)) = 1"
proof -
  note s = storeMessage_success[OF assms(2)]
  have g: "Map_get (messages st1) (id_prop d) = Some d"
    using s(1) by (simp add: Map_get_set_same)
  have "st1\<lparr>messages := Map_set (messages st1) (id_prop d) d\<rparr> = st1"
    using g by (simp add: Map_set_unchanged)
  then have again: "storeMessage d path' st1 = (None, st1)"
    using s g by (auto simp: storeMessage_def descriptor_eta)
  have "distinct (map fst (messages st1))"
    using assms by (rule storeMessage_keeps_keys_distinct)
  then have "length (filter (\<lambda>e. fst e = id_prop d) (messages st1)) = 1"
    using g by (rule Map_one_entry)
  with again g show ?thesis by simp
qed

text \<open>
  C3. Take a descriptor that can be registered: its \<open>id\<close> and \<open>defaultMessage\<close>
  are present, its \<open>description\<close> is present when \<open>enforceDescriptions\<close> is on, and
  its id is not registered with a different \<open>description\<close> or
  \<open>defaultMessage\<close>. The first call of \<open>storeMessage\<close> raises no error and puts the
  descriptor into the registry under its id. The second call, on the state the first one
  left, raises no error either and leaves that state as it is: the registry maps the id
  to the descriptor and has exactly one entry for the id. The keys of a \<open>Map\<close> are
  distinct, which \<open>storeMessage\<close> preserves
  (\<open>storeMessage_keeps_keys_distinct\<close>) and the empty registry of
  \<open>Program.enter\<close> satisfies.
\<close>

theorem storeMessage_idempotent:
  assumes "distinct (map fst (messages st))"
    and "truthy (id_prop d)" and "truthy (defaultMessage d)"
    and "enforceDescriptions (opts st) \<longrightarrow> truthy (description d)"
    and "case Map_get (messages st) (id_prop d) of None \<Rightarrow> True
         | Some existing \<Rightarrow> description existing = description d \<and>
             defaultMessage existing = defaultMessage d"
  shows "storeMessage d path st =
           (None, st\<lparr>messages := Map_set (messages st) (id_prop d) d\<rparr>)
         \<and> storeMessage d path' (st\<lparr>messages := Map_set (messages st) (id_prop d) d\<rparr>) =
           (None, st\<lparr>messages := Map_set (messages st) (id_prop d) d\<rparr>)
         \<and> Map_get (Map_set (messages st) (id_prop d) d) (id_prop d) = Some d
         \<and> length (filter (\<lambda>e. fst e = id_prop d)
               (Map_set (messages st) (id_prop d) d)) = 1"
proof -
  have first: "storeMessage d path st =
      (None, st\<lparr>messages := Map_set (messages st) (id_prop d) d\<rparr>)"
    using assms(2-5) by (rule storeMessage_accepts)
  from storeMessage_again[OF assms(1) first, of path'] first show ?thesis by simp
qed

theorem storeMessage_idempotent_witness:
  "storeMessage greeting NoNode (initial_state no_options ''App'' ''src/App.js'') =
     (None, (initial_state no_options ''App'' ''src/App.js'')
        \<lparr>messages := [(Some ''greeting'', greeting)]\<rparr>)
   \<and> storeMessage greeting (Expression NotConfident)
       ((initial_state no_options ''App'' ''src/App.js'')
          \<lparr>messages := [(Some ''greeting'', greeting)]\<rparr>) =
     (None, (initial_state no_options ''App'' ''src/App.js'')
        \<lparr>messages := [(Some ''greeting'', greeting)]\<rparr>)
   \<and> Map_get [(Some ''greeting'', greeting)] (Some ''greeting'') = Some greeting
   \<and> length (filter (\<lambda>e. fst e = Some ''greeting'') [(Some ''greeting'', greeting)]) = 1"
proof -
  have 1: "distinct (map fst (messages (initial_state no_options ''App'' ''src/App.js'')))"
    by (simp add: initial_state_def Program_enter_def)
  have 2: "truthy (id_prop greeting)" and 3: "truthy (defaultMessage greeting)"
    by (simp_all add: truthy_def greeting_def)
  have 4: "enforceDescriptions (opts (initial_state no_options ''App'' ''src/App.js'')) \<longrightarrow>
           truthy (description greeting)"
    by (simp add: initial_state_def Program_enter_def no_options_def)
  have 5: "case Map_get (messages (initial_state no_options ''App'' ''src/App.js''))
                  (id_prop greeting) of
             None \<Rightarrow> True
           | Some existing \<Rightarrow> description existing = description greeting \<and>
               defaultMessage existing = defaultMessage greeting"
    by (simp add: initial_state_def Program_enter_def)
  have m: "Map_set (messages (initial_state no_options ''App'' ''src/App.js''))
             (id_prop greeting) greeting = [(Some ''greeting'', greeting)]"
    by (simp add: initial_state_def Program_enter_def greeting_def)
  show ?thesis
    using storeMessage_idempotent [OF 1 2 3 4 5, of NoNode "Expression NotConfident"]
    unfolding m by (simp add: greeting_def)
qed







section \<open>Properties of the emitted catalog\<close>

lemma Map_set_new: "\<not> Map_has m k \<Longrightarrow> Map_set m k v = m @ [(k, v)]"
  by (induction m) (auto split: if_splits)

lemma Map_get_in_set: "Map_get m k = Some v \<Longrightarrow> (k, v) \<in> set m"
  by (induction m) (auto split: if_splits)

lemma Map_set_entries: "set (Map_set m k v) \<subseteq> insert (k, v) (set m)"
  by (induction m) (auto split: if_splits)

lemma descriptor_eqI:
  "id_prop a = id_prop b \<Longrightarrow> description a = description b \<Longrightarrow>
   defaultMessage a = defaultMessage b \<Longrightarrow> a = (b::descriptor)"
  by (cases a; cases b) simp

lemma storeMessage_registered:
  assumes inv: "\<forall>e \<in> set (messages st). id_prop (snd e) = fst e"
    and ok: "storeMessage d path st = (None, st1)"
  shows "messages st1 =
           (if id_prop d \<in> set (map fst (messages st)) then messages st
            else messages st @ [(id_prop d, d)])"
    and "\<forall>e \<in> set (messages st1). id_prop (snd e) = fst e"
proof -
  note s = storeMessage_success[OF ok]
  show "messages st1 =
           (if id_prop d \<in> set (map fst (messages st)) then messages st
            else messages st @ [(id_prop d, d)])"
  proof (cases "Map_has (messages st) (id_prop d)")
    case True
    then obtain e where e: "Map_get (messages st) (id_prop d) = Some e"
      by (auto simp: Map_has_get)
    then have "id_prop e = id_prop d"
      using inv Map_get_in_set by fastforce
    moreover have "description d = description e \<and> defaultMessage d = defaultMessage e"
      using ok True e by (auto simp: storeMessage_def split: if_splits)
    ultimately have "e = d" by (simp add: descriptor_eqI)
    then have "Map_set (messages st) (id_prop d) d = messages st"
      using e by (simp add: Map_set_unchanged)
    then show ?thesis using s(1) True by (simp add: Map_has_keys)
  next
    case False
    then show ?thesis using s(1) by (simp add: Map_set_new Map_has_keys)
  qed
  show "\<forall>e \<in> set (messages st1). id_prop (snd e) = fst e"
    using inv s(1) Map_set_entries[of "messages st" "id_prop d" d] by auto
qed

lemma storeMessages_registered:
  assumes "\<forall>e \<in> set (messages st). id_prop (snd e) = fst e"
    and "storeMessages calls st = (None, st')"
  shows "messages st' = messages st @
           map (\<lambda>d. (id_prop d, d))
             (first_registered
                (filter (\<lambda>d. id_prop d \<notin> set (map fst (messages st))) (map fst calls)))"
  using assms
proof (induction calls arbitrary: st)
  case Nil
  then show ?case by simp
next
  case (Cons c calls)
  obtain d path where c: "c = (d, path)" by (cases c)
  from Cons.prems(2) c obtain st1 where
    one: "storeMessage d path st = (None, st1)" and rest: "storeMessages calls st1 = (None, st')"
    by (auto split: prod.splits option.splits)
  note r = storeMessage_registered[OF Cons.prems(1) one]
  note ih = Cons.IH[OF r(2) rest]
  show ?case
  proof (cases "id_prop d \<in> set (map fst (messages st))")
    case True
    then have "messages st1 = messages st" using r(1) by simp
    then show ?thesis using ih True c by simp
  next
    case False
    then have m: "messages st1 = messages st @ [(id_prop d, d)]" using r(1) by simp
    have "filter (\<lambda>x. id_prop x \<notin> set (map fst (messages st1))) (map fst calls) =
          filter (\<lambda>d'. id_prop d' \<noteq> id_prop d)
            (filter (\<lambda>x. id_prop x \<notin> set (map fst (messages st))) (map fst calls))"
      unfolding m by (induction calls) auto
    then show ?thesis using ih False c m by simp
  qed
qed

lemma Program_exit_metadata: "metadata (Program_exit h st) = Some (Map_values (messages st))"
  by (simp add: Program_exit_def Let_def split: option.splits)

text \<open>
  \<open>first_registered\<close> keeps every id once, and changes nothing when no id
  repeats.
\<close>

lemma first_registered_subset: "set (first_registered ds) \<subseteq> set ds"
  by (induction ds rule: first_registered.induct) auto

lemma first_registered_ids_distinct: "distinct (map id_prop (first_registered ds))"
proof (induction ds rule: first_registered.induct)
  case 1
  then show ?case by simp
next
  case (2 d ds)
  have "id_prop d \<notin> id_prop ` set (first_registered (filter (\<lambda>d'. id_prop d' \<noteq> id_prop d) ds))"
    using first_registered_subset[of "filter (\<lambda>d'. id_prop d' \<noteq> id_prop d) ds"] by auto
  with 2 show ?case by simp
qed

lemma first_registered_ids: "id_prop ` set (first_registered ds) = id_prop ` set ds"
proof (induction ds rule: first_registered.induct)
  case 1
  then show ?case by simp
next
  case (2 d ds)
  then show ?case by auto
qed

lemma first_registered_no_repeat:
  "distinct (map id_prop ds) \<Longrightarrow> first_registered ds = ds"
proof (induction ds)
  case Nil
  then show ?case by simp
next
  case (Cons d ds)
  from Cons.prems have "id_prop d \<notin> id_prop ` set ds" by simp
  then have "\<forall>x \<in> set ds. id_prop x \<noteq> id_prop d" by (metis imageI)
  then have "filter (\<lambda>d'. id_prop d' \<noteq> id_prop d) ds = ds"
    by (simp add: filter_id_conv)
  with Cons show ?case by simp
qed

text \<open>
  C6. When the calls of \<open>storeMessage\<close> of a compilation unit, made from the empty
  registry of \<open>Program.enter\<close>, all return, the sequence \<open>Program.exit\<close> attaches
  to the metadata is the sequence of the descriptors registered, each at the place of the
  first registration of its id: a later registration of an id already there moves
  nothing. (Such a later registration is an exact duplicate, or the call would not
  return.)
\<close>

theorem emitted_in_registration_order:
  assumes "storeMessages calls (Program_enter st0) = (None, st)"
  shows "metadata (Program_exit h st) = Some (first_registered (map fst calls))"
proof -
  have "messages st = map (\<lambda>d. (id_prop d, d)) (first_registered (map fst calls))"
    using storeMessages_registered[OF _ assms] by (simp add: Program_enter_def)
  then show ?thesis
    by (simp add: Program_exit_metadata Map_values_def comp_def)
qed

theorem emitted_in_registration_order_witness:
  "metadata (Program_exit plain_host
     ((initial_state no_options ''App'' ''src/App.js'')
        \<lparr>messages := [(Some ''greeting'', greeting),
                       (Some ''farewell'', greeting\<lparr>id_prop := Some ''farewell''\<rparr>)]\<rparr>)) =
   Some (first_registered
     (map fst [(greeting, NoNode), (greeting\<lparr>id_prop := Some ''farewell''\<rparr>, NoNode),
               (greeting, NoNode)]))"
proof -
  have "storeMessages [(greeting, NoNode), (greeting\<lparr>id_prop := Some ''farewell''\<rparr>, NoNode),
               (greeting, NoNode)]
          (Program_enter (initial_state no_options ''App'' ''src/App.js'')) =
        (None, (initial_state no_options ''App'' ''src/App.js'')
        \<lparr>messages := [(Some ''greeting'', greeting),
                       (Some ''farewell'', greeting\<lparr>id_prop := Some ''farewell''\<rparr>)]\<rparr>)"
    by (simp add: storeMessage_def truthy_def example_defs)
  from emitted_in_registration_order [OF this, of plain_host] show ?thesis .
qed

text \<open>
  C7. \<open>Program.exit\<close> always sets the metadata entry to the sequence of the registry's
  values. When \<open>messagesDir\<close> is set (to a string that is not empty) and the sequence
  is not empty, it creates the directory of the catalog file and writes the file, the
  serialized sequence; otherwise it calls the file system not at all.
\<close>

theorem Program_exit_emits:
  "metadata (Program_exit h st) = Some (Map_values (messages st)) \<and>
   (truthy (messagesDir (opts st)) \<and> Map_values (messages st) \<noteq> [] \<longrightarrow>
      (\<exists>dir. messagesDir (opts st) = Some dir \<and>
         fs_calls (Program_exit h st) = fs_calls st @
           [MkdirpSync (p_dirname h (p_join h [dir,
               p_dirname h (p_join h [p_sep h, p_relative h (process_cwd h) (filename st)]),
               basename st @ ''.json''])),
            WriteFileSync (p_join h [dir,
               p_dirname h (p_join h [p_sep h, p_relative h (process_cwd h) (filename st)]),
               basename st @ ''.json''])
              (JSON_stringify h (Map_values (messages st)))])) \<and>
   (\<not> (truthy (messagesDir (opts st)) \<and> Map_values (messages st) \<noteq> []) \<longrightarrow>
      fs_calls (Program_exit h st) = fs_calls st)"
  by (auto simp: Program_exit_def Let_def truthy_def split: option.splits)

theorem Program_exit_emits_witness:
  "metadata (Program_exit plain_host
      ((initial_state (no_options\<lparr>messagesDir := Some ''build''\<rparr>) ''App'' ''App.js'')
         \<lparr>messages := [(Some ''greeting'', greeting)]\<rparr>)) = Some [greeting]
   \<and> fs_calls (Program_exit plain_host
      ((initial_state (no_options\<lparr>messagesDir := Some ''build''\<rparr>) ''App'' ''App.js'')
         \<lparr>messages := [(Some ''greeting'', greeting)]\<rparr>)) =
     [MkdirpSync ''build/'', WriteFileSync ''build/App.json'' ''greeting'']
   \<and> fs_calls (Program_exit plain_host
      (initial_state (no_options\<lparr>messagesDir := Some ''build''\<rparr>) ''App'' ''App.js'')) = []
   \<and> fs_calls (Program_exit plain_host
      ((initial_state no_options ''App'' ''App.js'')
         \<lparr>messages := [(Some ''greeting'', greeting)]\<rparr>)) = []"
  using Program_exit_emits [of plain_host
      "(initial_state (no_options\<lparr>messagesDir := Some ''build''\<rparr>) ''App'' ''App.js'')
         \<lparr>messages := [(Some ''greeting'', greeting)]\<rparr>"]
    Program_exit_emits [of plain_host
      "initial_state (no_options\<lparr>messagesDir := Some ''build''\<rparr>) ''App'' ''App.js''"]
    Program_exit_emits [of plain_host
      "(initial_state no_options ''App'' ''App.js'')
         \<lparr>messages := [(Some ''greeting'', greeting)]\<rparr>"]
  by (simp add: example_defs plain_host_def truthy_def Map_values_def)

section \<open>Properties of the descriptor builder\<close>

lemma starts_with_iff: "starts_with s p \<longleftrightarrow> (\<exists>suf. s = p @ suf)"
  by (induction s p rule: starts_with.induct) auto

lemma indexOf_from_found:
  "0 \<le> indexOf_from i s pat \<longleftrightarrow> (\<exists>pre suf. s = pre @ pat @ suf)"
proof (induction s arbitrary: i)
  case Nil
  then show ?case by simp
next
  case (Cons c cs)
  show ?case
  proof (cases "starts_with (c # cs) pat")
    case True
    then obtain suf where "c # cs = [] @ pat @ suf" by (auto simp: starts_with_iff)
    then have "\<exists>pre suf. c # cs = pre @ pat @ suf" by blast
    with True show ?thesis by simp
  next
    case False
    have "(\<exists>pre suf. c # cs = pre @ pat @ suf) \<longleftrightarrow> (\<exists>pre suf. cs = pre @ pat @ suf)"
    proof
      assume "\<exists>pre suf. c # cs = pre @ pat @ suf"
      then obtain pre suf where e: "c # cs = pre @ pat @ suf" by blast
      with False have "pre \<noteq> []" by (auto simp: starts_with_iff)
      then obtain pre' where "pre = c # pre'" using e by (cases pre) auto
      with e show "\<exists>pre suf. cs = pre @ pat @ suf" by auto
    next
      assume "\<exists>pre suf. cs = pre @ pat @ suf"
      then obtain pre suf where "cs = pre @ pat @ suf" by blast
      then have "c # cs = (c # pre) @ pat @ suf" by simp
      then show "\<exists>pre suf. c # cs = pre @ pat @ suf" by blast
    qed
    with False Cons.IH[of "Suc i"] show ?thesis by simp
  qed
qed

lemma indexOf_found: "0 \<le> indexOf s pat \<longleftrightarrow> (\<exists>pre suf. s = pre @ pat @ suf)"
  by (simp add: indexOf_def indexOf_from_found)

lemma reduce_from_append:
  "reduce_from p j hash (xs @ ys) =
     (case reduce_from p j hash xs of Inl e \<Rightarrow> Inl e | Inr hash' \<Rightarrow> reduce_from p j hash' ys)"
  by (induction xs arbitrary: hash) (auto split: sum.splits)

lemma reduce_step_defaultMessage:
  assumes "getMessageDescriptorKey keyPath = Some ''defaultMessage''"
    and "getMessageDescriptorValue valuePath = Some v"
  shows "reduce_step p j hash (keyPath, valuePath) =
     (case p v of
        Inr printed \<Rightarrow> Inr (hash\<lparr>defaultMessage := Some printed\<rparr>)
      | Inl parseError \<Rightarrow>
          Inl (if j \<and> isLiteral valuePath \<and> (\<exists>a b. v = a @ [CHR 0x5C, CHR 0x5C] @ b)
               then MessageFailedToParseJSXEscape valuePath
               else ErrorIsNotAConstructor))"
  using assms
  by (auto simp: reduce_step_def DESCRIPTOR_PROPS_def hash_set_def indexOf_found
        two_backslashes_def split: sum.splits)

lemma reduce_step_other:
  assumes "\<not> (getMessageDescriptorKey (fst kv) = Some ''defaultMessage'' \<and>
              getMessageDescriptorValue (snd kv) \<noteq> None)"
  shows "\<exists>hash'. reduce_step p j hash kv = Inr hash' \<and>
           defaultMessage hash' = defaultMessage hash"
  using assms
  by (cases kv) (auto simp: reduce_step_def DESCRIPTOR_PROPS_def hash_set_def
        split: option.splits)

lemma reduce_from_other:
  assumes "\<not> resolvesDefaultMessage kvs"
  shows "\<exists>hash'. reduce_from p j hash kvs = Inr hash' \<and>
           defaultMessage hash' = defaultMessage hash"
  using assms
proof (induction kvs arbitrary: hash)
  case Nil
  then show ?case by simp
next
  case (Cons kv kvs)
  then have a: "\<not> (getMessageDescriptorKey (fst kv) = Some ''defaultMessage'' \<and>
              getMessageDescriptorValue (snd kv) \<noteq> None)" and b: "\<not> resolvesDefaultMessage kvs"
    by (auto simp: resolvesDefaultMessage_def)
  from reduce_step_other[OF a] obtain h1 where
    h1: "reduce_step p j hash kv = Inr h1" "defaultMessage h1 = defaultMessage hash"
    by blast
  from Cons.IH[OF b, of h1] h1 show ?case by auto
qed

text \<open>
  What a \<open>defaultMessage\<close> pair does to the descriptor under construction. Let the
  pairs before it build the hash \<open>hash\<close>, and let its value evaluate to \<open>v\<close>.
  When the validator accepts \<open>v\<close>, its output, not \<open>v\<close>, becomes the
  \<open>defaultMessage\<close> of the hash, and of the descriptor built when no later pair
  resolves one. When the validator fails in a JSX usage whose value path is a literal and
  whose value contains two backslash characters in a row, the error is the one that
  advises to wrap the value in braces; in every other case of failure the
  \<open>TypeError\<close> is thrown.
\<close>

lemma createMessageDescriptor_defaultMessage_pair:
  assumes "reduce_from printICUMessage isJSXSource empty_hash before = Inr hash"
    and "getMessageDescriptorKey keyPath = Some ''defaultMessage''"
    and "getMessageDescriptorValue valuePath = Some v"
  shows "createMessageDescriptor printICUMessage (before @ (keyPath, valuePath) # after) isJSXSource =
     (case printICUMessage v of
        Inr printed \<Rightarrow>
          reduce_from printICUMessage isJSXSource (hash\<lparr>defaultMessage := Some printed\<rparr>) after
      | Inl parseError \<Rightarrow>
          Inl (if isJSXSource \<and> isLiteral valuePath \<and> (\<exists>a b. v = a @ [CHR 0x5C, CHR 0x5C] @ b)
               then MessageFailedToParseJSXEscape valuePath
               else ErrorIsNotAConstructor))
     \<and> (\<forall>printed. printICUMessage v = Inr printed \<and> \<not> resolvesDefaultMessage after \<longrightarrow>
          (\<exists>d. createMessageDescriptor printICUMessage (before @ (keyPath, valuePath) # after)
                  isJSXSource = Inr d \<and> defaultMessage d = Some printed))"
proof -
  have eq: "createMessageDescriptor printICUMessage (before @ (keyPath, valuePath) # after) isJSXSource =
     (case reduce_step printICUMessage isJSXSource hash (keyPath, valuePath) of
        Inl e \<Rightarrow> Inl e | Inr hash' \<Rightarrow> reduce_from printICUMessage isJSXSource hash' after)"
    using assms(1) by (simp add: createMessageDescriptor_def reduce_from_append)
  note step = reduce_step_defaultMessage[OF assms(2,3), of printICUMessage isJSXSource hash]
  have first: "createMessageDescriptor printICUMessage (before @ (keyPath, valuePath) # after) isJSXSource =
     (case printICUMessage v of
        Inr printed \<Rightarrow>
          reduce_from printICUMessage isJSXSource (hash\<lparr>defaultMessage := Some printed\<rparr>) after
      | Inl parseError \<Rightarrow>
          Inl (if isJSXSource \<and> isLiteral valuePath \<and> (\<exists>a b. v = a @ [CHR 0x5C, CHR 0x5C] @ b)
               then MessageFailedToParseJSXEscape valuePath
               else ErrorIsNotAConstructor))"
    unfolding eq step by (simp split: sum.splits)
  have second: "\<exists>d. createMessageDescriptor printICUMessage (before @ (keyPath, valuePath) # after)
                  isJSXSource = Inr d \<and> defaultMessage d = Some printed"
    if "printICUMessage v = Inr printed" and "\<not> resolvesDefaultMessage after" for printed
    using reduce_from_other[OF that(2), of printICUMessage isJSXSource
        "hash\<lparr>defaultMessage := Some printed\<rparr>"] that(1)
    unfolding first by auto
  from first second show ?thesis by blast
qed

text \<open>
  C8. The claim's last clause fails on the code: a \<open>defaultMessage\<close> the validator
  rejects, here \<open>Hello {name\<close> with its brace left open, does not raise a generic
  syntax error with the location and the parse failure. Both in an object of a
  \<open>defineMessages\<close> call and in a \<open>FormattedMessage\<close> element the host's
  \<open>TypeError\<close> comes out, since line 120 passes \<open>parseError\<close> where the host
  expects the error constructor.
\<close>

theorem defaultMessage_parse_failure_throws_TypeError:
  "sample_printICUMessage ''Hello {name'' = Inl ''unbalanced braces''
   \<and> createMessageDescriptor sample_printICUMessage
       [(Identifier ''id'' None NotConfident, StringLiteral ''greeting''),
        (Identifier ''defaultMessage'' None NotConfident, StringLiteral ''Hello {name'')]
       False = Inl ErrorIsNotAConstructor
   \<and> visit_JSXOpeningElement sample_printICUMessage
       (formattedMessage [attribute ''id'' ''greeting'',
                          attribute ''defaultMessage'' ''Hello {name''])
       (initial_state no_options ''App'' ''src/App.js'') =
     (Some ErrorIsNotAConstructor, initial_state no_options ''App'' ''src/App.js'')"
  by (simp add: visitor_defs example_defs indexOf_def two_backslashes_def)

section \<open>Properties of the visitor\<close>

text \<open>
  C9, amended. A JSX usage from which no \<open>defaultMessage\<close> is resolved, or whose
  resolved \<open>defaultMessage\<close> is empty, produces no error and leaves the registry as
  it was, whatever else it declares: a usage that declares an \<open>id\<close> and no
  \<open>defaultMessage\<close> is skipped, not refused. A marker usage that resolves a
  \<open>defaultMessage\<close> that is not empty and no \<open>id\<close> (or an empty one) fails with
  the missing-required-field error.
\<close>

theorem visit_JSXOpeningElement_skips:
  assumes "propPaths = map (\<lambda>attr. (get_name attr, get_value attr))
                         (filter isJSXAttribute (get_attributes path))"
  shows "(\<not> resolvesDefaultMessage propPaths \<longrightarrow>
            fst (visit_JSXOpeningElement p path st) = None \<and>
            messages (snd (visit_JSXOpeningElement p path st)) = messages st)
       \<and> (\<forall>d. createMessageDescriptor p propPaths True = Inr d \<and>
                \<not> truthy (defaultMessage d) \<longrightarrow>
            fst (visit_JSXOpeningElement p path st) = None \<and>
            messages (snd (visit_JSXOpeningElement p path st)) = messages st)
       \<and> (\<forall>d. \<not> referencesImport (get_name path) (getModuleSourceNames (opts st))
                    [''FormattedPlural''] \<and>
                referencesImport (get_name path) (getModuleSourceNames (opts st))
                    COMPONENT_NAMES \<and>
                createMessageDescriptor p propPaths True = Inr d \<and>
                truthy (defaultMessage d) \<and> \<not> truthy (id_prop d) \<longrightarrow>
            visit_JSXOpeningElement p path st = (Some (RequireIdAndDefaultMessage path), st))"
proof -
  have B: "fst (visit_JSXOpeningElement p path st) = None \<and>
           messages (snd (visit_JSXOpeningElement p path st)) = messages st"
    if "createMessageDescriptor p propPaths True = Inr d" and "\<not> truthy (defaultMessage d)" for d
    using that assms by (simp add: visit_JSXOpeningElement_def Let_def)
  have A: "fst (visit_JSXOpeningElement p path st) = None \<and>
           messages (snd (visit_JSXOpeningElement p path st)) = messages st"
    if "\<not> resolvesDefaultMessage propPaths"
  proof -
    from reduce_from_other[OF that, of p True empty_hash] obtain d where
      "createMessageDescriptor p propPaths True = Inr d" "defaultMessage d = None"
      by (auto simp: createMessageDescriptor_def empty_hash_def)
    then show ?thesis using B[of d] by (simp add: truthy_def)
  qed
  have C: "visit_JSXOpeningElement p path st = (Some (RequireIdAndDefaultMessage path), st)"
    if "\<not> referencesImport (get_name path) (getModuleSourceNames (opts st)) [''FormattedPlural'']"
      and "referencesImport (get_name path) (getModuleSourceNames (opts st)) COMPONENT_NAMES"
      and "createMessageDescriptor p propPaths True = Inr d"
      and "truthy (defaultMessage d)" and "\<not> truthy (id_prop d)" for d
    using that assms by (simp add: visit_JSXOpeningElement_def Let_def storeMessage_def)
  from A B C show ?thesis by blast
qed

theorem visit_JSXOpeningElement_skips_witness:
  "fst (visit_JSXOpeningElement sample_printICUMessage
      (formattedMessage [JSXSpreadAttribute (Identifier ''descriptor'' None NotConfident)])
      (initial_state no_options ''App'' ''src/App.js'')) = None
   \<and> messages (snd (visit_JSXOpeningElement sample_printICUMessage
      (formattedMessage [JSXSpreadAttribute (Identifier ''descriptor'' None NotConfident)])
      (initial_state no_options ''App'' ''src/App.js''))) = []
   \<and> visit_JSXOpeningElement sample_printICUMessage
      (formattedMessage [attribute ''defaultMessage'' ''Hello {name}''])
      (initial_state no_options ''App'' ''src/App.js'') =
     (Some (RequireIdAndDefaultMessage (formattedMessage [attribute ''defaultMessage'' ''Hello {name}''])),
      initial_state no_options ''App'' ''src/App.js'')"
proof -
  have 1: "\<not> resolvesDefaultMessage (map (\<lambda>attr. (get_name attr, get_value attr))
      (filter isJSXAttribute (get_attributes
         (formattedMessage [JSXSpreadAttribute (Identifier ''descriptor'' None NotConfident)]))))"
    by (simp add: resolvesDefaultMessage_def formattedMessage_def)
  have 2: "\<not> referencesImport (get_name (formattedMessage [attribute ''defaultMessage'' ''Hello {name}'']))
        (getModuleSourceNames (opts (initial_state no_options ''App'' ''src/App.js'')))
        [''FormattedPlural''] \<and>
      referencesImport (get_name (formattedMessage [attribute ''defaultMessage'' ''Hello {name}'']))
        (getModuleSourceNames (opts (initial_state no_options ''App'' ''src/App.js'')))
        COMPONENT_NAMES \<and>
      createMessageDescriptor sample_printICUMessage
        (map (\<lambda>attr. (get_name attr, get_value attr))
           (filter isJSXAttribute (get_attributes
              (formattedMessage [attribute ''defaultMessage'' ''Hello {name}'']))))
        True = Inr (greeting\<lparr>id_prop := None\<rparr>) \<and>
      truthy (defaultMessage (greeting\<lparr>id_prop := None\<rparr>)) \<and>
      \<not> truthy (id_prop (greeting\<lparr>id_prop := None\<rparr>))"
    by (simp add: visitor_defs example_defs)
  show ?thesis
    using 1 2
      visit_JSXOpeningElement_skips [OF refl, of
        "formattedMessage [JSXSpreadAttribute (Identifier ''descriptor'' None NotConfident)]"
        sample_printICUMessage "initial_state no_options ''App'' ''src/App.js''"]
      visit_JSXOpeningElement_skips [OF refl, of
        "formattedMessage [attribute ''defaultMessage'' ''Hello {name}'']"
        sample_printICUMessage "initial_state no_options ''App'' ''src/App.js''"]
    by (simp add: initial_state_def Program_enter_def)
qed

text \<open>
  C9 as stated fails: \<open><FormattedMessage id="greeting" />\<close> declares a descriptor
  property, misses the required \<open>defaultMessage\<close>, and is skipped without an error.
\<close>

theorem visit_JSXOpeningElement_skips_counterexample:
  "createMessageDescriptor sample_printICUMessage
     [(JSXIdentifier ''id'' None, StringLiteral ''greeting'')] True =
     Inr \<lparr>id_prop = Some ''greeting'', description = None, defaultMessage = None\<rparr>
   \<and> visit_JSXOpeningElement sample_printICUMessage
       (formattedMessage [attribute ''id'' ''greeting''])
       (initial_state no_options ''App'' ''src/App.js'') =
     (None, initial_state no_options ''App'' ''src/App.js'')"
  by (simp add: visitor_defs example_defs)

text \<open>
  C1. The source defines \<open>getComponentNames\<close> and \<open>getFunctionNames\<close>, which read
  the overrides, and never calls them: the visitor matches against the built-in lists.
  With \<open>componentNames = ['Translate']\<close> and \<open>functionNames = ['translate']\<close>, a
  \<open>Translate\<close> element and a \<open>translate\<close> call imported from \<open>react-intl\<close>
  are not recognized, and \<open>FormattedMessage\<close> and \<open>defineMessages\<close>, which the
  overrides leave out, still are.
\<close>

theorem configured_names_are_ignored:
  "getComponentNames custom_names = [''Translate'']
   \<and> visit_JSXOpeningElement sample_printICUMessage
       (JSXOpeningElement (JSXIdentifier ''Translate'' (Some (''react-intl'', ''Translate'')))
          [attribute ''id'' ''greeting'', attribute ''defaultMessage'' ''Hello {name}''])
       (initial_state custom_names ''App'' ''src/App.js'') =
     (None, initial_state custom_names ''App'' ''src/App.js'')
   \<and> visit_JSXOpeningElement sample_printICUMessage
       (formattedMessage [attribute ''id'' ''greeting'', attribute ''defaultMessage'' ''Hello {name}''])
       (initial_state custom_names ''App'' ''src/App.js'') =
     (None, (initial_state custom_names ''App'' ''src/App.js'')
        \<lparr>messages := [(Some ''greeting'', greeting)]\<rparr>)
   \<and> getFunctionNames custom_names = [''translate'']
   \<and> visit_CallExpression sample_printICUMessage (messagesCall ''translate'')
       (initial_state custom_names ''App'' ''src/App.js'') =
     (None, initial_state custom_names ''App'' ''src/App.js'')
   \<and> visit_CallExpression sample_printICUMessage (messagesCall ''defineMessages'')
       (initial_state custom_names ''App'' ''src/App.js'') =
     (None, (initial_state custom_names ''App'' ''src/App.js'')
        \<lparr>messages := [(Some ''greeting'', greeting)]\<rparr>)"
  by (simp add: visitor_defs example_defs custom_names_def messagesCall_def
      getComponentNames_def getFunctionNames_def)

end
